theory Spec2Isabelle
  imports Complex_Main "HOL-Library.AList"
begin

section \<open>JavaScript values\<close>

text \<open>
  The decorator of \<^verbatim>\<open>src/persistable.ts\<close> receives and stores values of type
  \<^verbatim>\<open>any\<close>. A value is a finite tree: the primitives, arrays, and the kinds of
  object that \<^verbatim>\<open>isSerializable\<close> and \<^verbatim>\<open>JSON.stringify\<close> tell apart.
  Numbers are the finite ones (as reals) and the three non-finite ones; \<open>-0\<close> is not told
  apart from \<open>0\<close>, as \<^verbatim>\<open>===\<close> does not tell them apart either. Arrays and objects
  that reach themselves are not trees; the validator is defined on them in the section on
  references below. Accessor properties and proxies are left out: reading a property runs
  no code. The built-in prototypes are as the platform defines them, and an array has no
  named property of its own.
\<close>

datatype error = TypeError | SyntaxError | RangeError | SqlError

datatype jsnum = Finite real | NaN | PosInfinity | NegInfinity

text \<open>
  The document that a JSON text denotes. \<^verbatim>\<open>JSON.stringify\<close> and \<^verbatim>\<open>JSON.parse\<close> are
  built-ins of the platform; they are represented by what they do to the document, and
  a text is identified with the document it denotes.
\<close>

datatype json =
    JNull
  | JBool bool
  | JNumber real
  | JString string
  | JArray "json list"
  | JObject "(string \<times> json) list"

text \<open>
  What \<^verbatim>\<open>JSON.stringify\<close> does with a value: it throws (\<open>Inl\<close>), returns
  \<^verbatim>\<open>undefined\<close> (\<open>Inr None\<close>) or returns the text of a document.
\<close>

type_synonym stringified = "error + json option"

text \<open>
  \<^item> \<open>VPlain ps\<close>: an object as an object literal or \<^verbatim>\<open>JSON.parse\<close> makes it: its
    prototype is \<^verbatim>\<open>Object.prototype\<close> and its own properties are the enumerable
    properties \<open>ps\<close>, in enumeration order;
  \<^item> \<open>VDate d\<close>: a \<^verbatim>\<open>Date\<close> without own properties, \<open>d\<close> its ISO-8601 string
    (\<open>None\<close> for an invalid date);
  \<^item> \<open>VInstance d c ps t\<close>: any other object that is neither an array nor callable
    (a class instance, a \<^verbatim>\<open>Map\<close>, an object made by \<^verbatim>\<open>Object.create\<close> or by
    \<^verbatim>\<open>new F()\<close>, a date with own properties), with its own enumerable properties
    \<open>ps\<close>. The other three fields say what the rest of the object (its own properties
    that are not enumerable, and its prototype chain) gives: \<open>d\<close> whether
    \<^verbatim>\<open>value instanceof Date\<close> holds, \<open>c\<close> whether \<^verbatim>\<open>value.constructor\<close> is
    \<^verbatim>\<open>Object\<close> when no property of \<open>ps\<close> has that name, and \<open>t\<close>, when
    \<^verbatim>\<open>value.toJSON\<close> is callable and no property of \<open>ps\<close> has that name, what
    serialising the result of that method gives;
  \<^item> \<open>VFunction r t\<close>: a callable; \<open>r\<close> is what serialising its result gives when it
    is called as a \<^verbatim>\<open>toJSON\<close> method, \<open>t\<close> is as for an instance. The built-in
    function \<^verbatim>\<open>Object\<close> is not among the values: what it returns as a \<^verbatim>\<open>toJSON\<close>
    method depends on the key, and no property of a value holds it.
\<close>

datatype jsval =
    VUndefined
  | VNull
  | VBoolean bool
  | VNumber jsnum
  | VString string
  | VBigInt int
  | VSymbol string
  | VArray "jsval list"
  | VPlain "(string \<times> jsval) list"
  | VDate "string option"
  | VInstance bool bool "(string \<times> jsval) list" "stringified option"
  | VFunction stringified "stringified option"

datatype jstype =
  TUndefined | TObject | TBoolean | TNumber | TString | TBigint | TSymbol | TFunction

fun typeof :: "jsval \<Rightarrow> jstype" where
  "typeof VUndefined = TUndefined"
| "typeof VNull = TObject"
| "typeof (VBoolean b) = TBoolean"
| "typeof (VNumber n) = TNumber"
| "typeof (VString s) = TString"
| "typeof (VBigInt i) = TBigint"
| "typeof (VSymbol s) = TSymbol"
| "typeof (VFunction r t) = TFunction"
| "typeof v = TObject"

text \<open>
  \<^verbatim>\<open>value.toJSON\<close> when it is callable, as what serialising the result of the call
  gives. An own property shadows an inherited one; \<^verbatim>\<open>Date.prototype.toJSON\<close> gives the
  ISO string, or \<^verbatim>\<open>null\<close> for an invalid date.
\<close>

fun toJSON_of :: "jsval \<Rightarrow> stringified option" where
  "toJSON_of (VDate d) =
     Some (Inr (Some (case d of Some s \<Rightarrow> JString s | None \<Rightarrow> JNull)))"
| "toJSON_of (VPlain ps) =
     (case map_of ps ''toJSON'' of Some (VFunction r t) \<Rightarrow> Some r | _ \<Rightarrow> None)"
| "toJSON_of (VInstance d c ps t) =
     (case map_of ps ''toJSON'' of
        Some (VFunction r t') \<Rightarrow> Some r
      | Some _ \<Rightarrow> None
      | None \<Rightarrow> t)"
| "toJSON_of (VFunction r t) = t"
| "toJSON_of v = None"

text \<open>\<^verbatim>\<open>typeof value.toJSON === "function"\<close>\<close>

definition has_toJSON :: "jsval \<Rightarrow> bool" where
  "has_toJSON v = (toJSON_of v \<noteq> None)"

text \<open>
  \<^verbatim>\<open>value.constructor === Object\<close> for an object with the own enumerable properties
  \<open>ps\<close>: an own property named \<^verbatim>\<open>constructor\<close> shadows what the rest of the object
  gives, and its value is not \<^verbatim>\<open>Object\<close>; without one, the rest of the object decides
  (\<open>inherited\<close>), which for a plain object is \<^verbatim>\<open>Object.prototype\<close>.
\<close>

definition constructor_is_Object :: "(string \<times> jsval) list \<Rightarrow> bool \<Rightarrow> bool" where
  "constructor_is_Object ps inherited =
     (case map_of ps ''constructor'' of
        Some v \<Rightarrow> False
      | None \<Rightarrow> inherited)"

section \<open>The Serializability Validator\<close>

text \<open>
  \<^verbatim>\<open>isSerializable\<close> (persistable.ts, lines 175-205), one equation per test of the
  source, in its order: the primitives, \<^verbatim>\<open>Array.isArray\<close>, the test
  \<^verbatim>\<open>typeof value === "object" && value.constructor === Object\<close> (then
  \<^verbatim>\<open>Object.values(value).every\<close>), \<^verbatim>\<open>instanceof Date\<close>, and for what is left the
  test on \<^verbatim>\<open>toJSON\<close>. An object that fails the test on its constructor falls through
  to the last two tests, whatever its prototype; an object that passes it is judged by
  its values, whatever its prototype.
\<close>

fun isSerializable :: "jsval \<Rightarrow> bool" where
  "isSerializable VNull = True"
| "isSerializable VUndefined = True"
| "isSerializable (VString s) = True"
| "isSerializable (VNumber n) = True"
| "isSerializable (VBoolean b) = True"
| "isSerializable (VArray xs) = list_all isSerializable xs"
| "isSerializable (VPlain ps) =
     (if constructor_is_Object ps True then list_all (\<lambda>p. isSerializable (snd p)) ps
      else has_toJSON (VPlain ps))"
| "isSerializable (VInstance d c ps t) =
     (if constructor_is_Object ps c then list_all (\<lambda>p. isSerializable (snd p)) ps
      else if d then True
      else has_toJSON (VInstance d c ps t))"
| "isSerializable (VDate d) = True"
| "isSerializable v = has_toJSON v"

section \<open>JSON.stringify and JSON.parse\<close>

text \<open>
  An element of an array that serialises to \<^verbatim>\<open>undefined\<close> becomes \<^verbatim>\<open>null\<close>; a
  property of an object that does is left out; the first exception ends the serialisation.
\<close>

fun serialize_array :: "stringified list \<Rightarrow> error + json list" where
  "serialize_array [] = Inr []"
| "serialize_array (Inl e # rs) = Inl e"
| "serialize_array (Inr j # rs) =
     (case serialize_array rs of
        Inl e \<Rightarrow> Inl e
      | Inr js \<Rightarrow> Inr ((case j of None \<Rightarrow> JNull | Some d \<Rightarrow> d) # js))"

fun serialize_object :: "(string \<times> stringified) list \<Rightarrow> error + (string \<times> json) list" where
  "serialize_object [] = Inr []"
| "serialize_object ((k, Inl e) # rs) = Inl e"
| "serialize_object ((k, Inr j) # rs) =
     (case serialize_object rs of
        Inl e \<Rightarrow> Inl e
      | Inr js \<Rightarrow> Inr (case j of None \<Rightarrow> js | Some d \<Rightarrow> (k, d) # js))"

definition as_array :: "error + json list \<Rightarrow> stringified" where
  "as_array r = (case r of Inl e \<Rightarrow> Inl e | Inr js \<Rightarrow> Inr (Some (JArray js)))"

definition as_object :: "error + (string \<times> json) list \<Rightarrow> stringified" where
  "as_object r = (case r of Inl e \<Rightarrow> Inl e | Inr js \<Rightarrow> Inr (Some (JObject js)))"

fun JSON_stringify :: "jsval \<Rightarrow> stringified" where
  "JSON_stringify VUndefined = Inr None"
| "JSON_stringify VNull = Inr (Some JNull)"
| "JSON_stringify (VBoolean b) = Inr (Some (JBool b))"
| "JSON_stringify (VNumber n) = Inr (Some (case n of Finite r \<Rightarrow> JNumber r | _ \<Rightarrow> JNull))"
| "JSON_stringify (VString s) = Inr (Some (JString s))"
| "JSON_stringify (VBigInt i) = Inl TypeError"
| "JSON_stringify (VSymbol s) = Inr None"
| "JSON_stringify (VArray xs) = as_array (serialize_array (map JSON_stringify xs))"
| "JSON_stringify (VPlain ps) =
     (case toJSON_of (VPlain ps) of
        Some r \<Rightarrow> r
      | None \<Rightarrow> as_object (serialize_object (map (\<lambda>p. (fst p, JSON_stringify (snd p))) ps)))"
| "JSON_stringify (VDate d) =
     Inr (Some (case d of Some s \<Rightarrow> JString s | None \<Rightarrow> JNull))"
| "JSON_stringify (VInstance d c ps t) =
     (case toJSON_of (VInstance d c ps t) of
        Some r \<Rightarrow> r
      | None \<Rightarrow> as_object (serialize_object (map (\<lambda>p. (fst p, JSON_stringify (snd p))) ps)))"
| "JSON_stringify (VFunction r t) = (case t of Some r' \<Rightarrow> r' | None \<Rightarrow> Inr None)"

text \<open>
  \<^verbatim>\<open>JSON.parse\<close> of a well-formed text builds plain objects and arrays. A key that occurs
  twice keeps its first position and its last value.
\<close>

fun revive :: "json \<Rightarrow> jsval" where
  "revive JNull = VNull"
| "revive (JBool b) = VBoolean b"
| "revive (JNumber r) = VNumber (Finite r)"
| "revive (JString s) = VString s"
| "revive (JArray js) = VArray (map revive js)"
| "revive (JObject ms) =
     VPlain (foldl (\<lambda>acc p. AList.update (fst p) (revive (snd p)) acc) [] ms)"

text \<open>
  The content of a \<^verbatim>\<open>TEXT\<close> cell: the text of a JSON document, or any other text, on
  which \<^verbatim>\<open>JSON.parse\<close> throws a \<^verbatim>\<open>SyntaxError\<close>.
\<close>

datatype sqltext = JsonText json | OtherText string

fun JSON_parse :: "sqltext \<Rightarrow> error + jsval" where
  "JSON_parse (JsonText j) = Inr (revive j)"
| "JSON_parse (OtherText s) = Inl SyntaxError"

section \<open>The backing store\<close>

text \<open>
  \<^verbatim>\<open>state.storage.sql\<close> is the SQLite database of the hosting runtime. The decorator
  issues three statements: the \<^verbatim>\<open>CREATE TABLE IF NOT EXISTS _persisted_kv\<close> of
  \<^verbatim>\<open>initializeStorage\<close>, the \<^verbatim>\<open>SELECT value ... WHERE key = ?\<close> of the getter and the
  \<^verbatim>\<open>INSERT OR REPLACE\<close> of the setter. The table is a map from \<^verbatim>\<open>key\<close> (the primary
  key) to \<^verbatim>\<open>value\<close>; the two timestamp columns are left out. Every call of
  \<^verbatim>\<open>exec\<close> is written to a journal, whether it throws or not. A statement throws when
  the store is in a condition to (the three flags, which the environment sets), when the
  table does not exist, and, for the insertion, when the bound value is \<^verbatim>\<open>undefined\<close>
  (the column is \<^verbatim>\<open>TEXT NOT NULL\<close>). A statement that throws changes no row.
\<close>

datatype statement =
    CreateTable
  | Select string
  | InsertOrReplace string "sqltext option"

record sql_storage =
  table :: "(string \<rightharpoonup> sqltext) option"
  journal :: "statement list"
  create_throws :: bool
  select_throws :: bool
  insert_throws :: bool

definition exec_create :: "sql_storage \<Rightarrow> (error + unit) \<times> sql_storage" where
  "exec_create s =
     (let s' = s\<lparr>journal := journal s @ [CreateTable]\<rparr> in
      if create_throws s then (Inl SqlError, s')
      else (Inr (), s'\<lparr>table := Some (case table s of None \<Rightarrow> Map.empty | Some t \<Rightarrow> t)\<rparr>))"

definition exec_select :: "string \<Rightarrow> sql_storage \<Rightarrow> (error + sqltext option) \<times> sql_storage" where
  "exec_select key s =
     (let s' = s\<lparr>journal := journal s @ [Select key]\<rparr> in
      if select_throws s then (Inl SqlError, s')
      else (case table s of
              None \<Rightarrow> (Inl SqlError, s')
            | Some t \<Rightarrow> (Inr (t key), s')))"

definition exec_insert ::
  "string \<Rightarrow> sqltext option \<Rightarrow> sql_storage \<Rightarrow> (error + unit) \<times> sql_storage" where
  "exec_insert key bound s =
     (let s' = s\<lparr>journal := journal s @ [InsertOrReplace key bound]\<rparr> in
      if insert_throws s then (Inl SqlError, s')
      else (case table s of
              None \<Rightarrow> (Inl SqlError, s')
            | Some t \<Rightarrow>
                (case bound of
                   None \<Rightarrow> (Inl SqlError, s')
                 | Some txt \<Rightarrow> (Inr (), s'\<lparr>table := Some (t(key \<mapsto> txt))\<rparr>))))"

text \<open>What is outside the instance: the database and the console.\<close>

datatype level = LError | LWarn

type_synonym console_line = "level \<times> string \<times> error option"

record world =
  sql :: sql_storage
  console :: "console_line list"

text \<open>
  The first argument of the constructor when it is an object with a \<^verbatim>\<open>storage\<close> key
  (it becomes \<^verbatim>\<open>this[DURABLE_OBJECT_STATE]\<close>); the flag says whether its
  \<^verbatim>\<open>storage.sql\<close> is there.
\<close>

datatype do_state = DurableObjectState bool

text \<open>\<^verbatim>\<open>state?.storage?.sql\<close>, where \<^verbatim>\<open>state\<close> may be \<^verbatim>\<open>undefined\<close>\<close>

fun has_sql :: "do_state option \<Rightarrow> bool" where
  "has_sql None = False"
| "has_sql (Some (DurableObjectState b)) = b"

section \<open>The Persistent Field Interceptor\<close>

text \<open>
  \<^verbatim>\<open>makePropertyPersistent\<close> (lines 97-173) closes the accessor pair over
  \<^verbatim>\<open>storageKey\<close>, \<^verbatim>\<open>value\<close> and \<^verbatim>\<open>initialized\<close>, and keeps the value found at wrap
  time in \<^verbatim>\<open>this[ORIGINAL_PROPERTIES]\<close> under the property's name. The record holds
  these: \<open>cachedValue\<close> is the variable \<^verbatim>\<open>value\<close>, \<open>original\<close> the entry of the map.
\<close>

record pfield =
  propertyName :: string
  storageKey :: string
  cachedValue :: jsval
  initialized :: bool
  original :: jsval

definition load_warning :: "string \<Rightarrow> error \<Rightarrow> console_line" where
  "load_warning name e = (LWarn, ''Failed to load persisted property '' @ name @ '':'', Some e)"

definition persist_error :: "string \<Rightarrow> error \<Rightarrow> console_line" where
  "persist_error name e = (LError, ''Failed to persist property '' @ name @ '':'', Some e)"

definition not_serializable_warning :: "string \<Rightarrow> console_line" where
  "not_serializable_warning name =
     (LWarn, ''Property '' @ name @ '' is not serializable and won't be persisted'', None)"

text \<open>
  The body of the first read (lines 110-134): the lookup, then the row's parsed value,
  or the original value when there is no row or when the lookup or the parse throws.
\<close>

definition load :: "pfield \<Rightarrow> world \<Rightarrow> pfield \<times> world" where
  "load f w =
     (case exec_select (storageKey f) (sql w) of
        (Inr (Some txt), s') \<Rightarrow>
          (case JSON_parse txt of
             Inr v \<Rightarrow> (f\<lparr>cachedValue := v\<rparr>, w\<lparr>sql := s'\<rparr>)
           | Inl e \<Rightarrow>
               (f\<lparr>cachedValue := original f\<rparr>,
                w\<lparr>sql := s', console := console w @ [load_warning (propertyName f) e]\<rparr>))
      | (Inr None, s') \<Rightarrow> (f\<lparr>cachedValue := original f\<rparr>, w\<lparr>sql := s'\<rparr>)
      | (Inl e, s') \<Rightarrow>
          (f\<lparr>cachedValue := original f\<rparr>,
           w\<lparr>sql := s', console := console w @ [load_warning (propertyName f) e]\<rparr>))"

text \<open>The getter (lines 107-137): the value read, the field and the world after.\<close>

definition getter :: "do_state option \<Rightarrow> pfield \<Rightarrow> world \<Rightarrow> jsval \<times> pfield \<times> world" where
  "getter state f w =
     (if \<not> initialized f then
        (let (f', w') = (if has_sql state then load f w else (f, w)) in
         (cachedValue f', f'\<lparr>initialized := True\<rparr>, w'))
      else (cachedValue f, f, w))"

text \<open>The setter (lines 139-168).\<close>

definition setter :: "do_state option \<Rightarrow> pfield \<Rightarrow> jsval \<Rightarrow> world \<Rightarrow> pfield \<times> world" where
  "setter state f newValue w =
     (if isSerializable newValue then
        (let f' = f\<lparr>cachedValue := newValue\<rparr> in
         if has_sql state then
           (case JSON_stringify newValue of
              Inl e \<Rightarrow> (f', w\<lparr>console := console w @ [persist_error (propertyName f) e]\<rparr>)
            | Inr bound \<Rightarrow>
                (case exec_insert (storageKey f) (map_option JsonText bound) (sql w) of
                   (Inr u, s') \<Rightarrow> (f', w\<lparr>sql := s'\<rparr>)
                 | (Inl e, s') \<Rightarrow>
                     (f', w\<lparr>sql := s',
                            console := console w @ [persist_error (propertyName f) e]\<rparr>)))
         else (f', w))
      else
        (f\<lparr>cachedValue := newValue\<rparr>,
         w\<lparr>console := console w @ [not_serializable_warning (propertyName f)]\<rparr>))"

section \<open>The Property Registry and the Attachment Protocol\<close>

text \<open>
  The instance as \<^verbatim>\<open>super(...args)\<close> leaves it: its own string-keyed properties in
  the order of \<^verbatim>\<open>Object.getOwnPropertyNames\<close>, and its prototype chain, from
  \<^verbatim>\<open>Object.getPrototypeOf(this)\<close> upwards until \<^verbatim>\<open>getPrototypeOf\<close> gives
  \<^verbatim>\<open>null\<close>. Of a prototype the registry reads \<^verbatim>\<open>proto.constructor\<close>, its own
  property names and \<^verbatim>\<open>proto[prop]\<close> for each of them.
\<close>

datatype ctor = ObjectCtor | DecoratedCtor | OtherCtor nat

record proto =
  proto_constructor :: ctor
  proto_props :: "(string \<times> jsval) list"

record target =
  own :: "(string \<times> jsval) list"
  protos :: "proto list"

record options =
  opt_exclude :: "string list option"
  opt_include :: "string list option"
  opt_prefix :: "string option"

text \<open>\<^verbatim>\<open>prop.startsWith("_")\<close>\<close>

fun startsWith_underscore :: "string \<Rightarrow> bool" where
  "startsWith_underscore [] = False"
| "startsWith_underscore (c # cs) = (c = CHR ''_'')"

text \<open>\<^verbatim>\<open>properties.add(prop)\<close> on a \<^verbatim>\<open>Set\<close>, which keeps the order of insertion\<close>

definition add :: "string \<Rightarrow> string list \<Rightarrow> string list" where
  "add prop properties = (if prop \<in> set properties then properties else properties @ [prop])"

definition own_step :: "string \<Rightarrow> string list \<Rightarrow> string list" where
  "own_step prop properties =
     (if \<not> startsWith_underscore prop \<and> prop \<noteq> ''constructor'' then add prop properties
      else properties)"

definition proto_step :: "string \<times> jsval \<Rightarrow> string list \<Rightarrow> string list" where
  "proto_step pv properties =
     (if \<not> startsWith_underscore (fst pv) \<and> fst pv \<noteq> ''constructor''
         \<and> typeof (snd pv) \<noteq> TFunction
      then add (fst pv) properties
      else properties)"

text \<open>
  The \<^verbatim>\<open>while\<close> loop of \<^verbatim>\<open>getSerializableProperties\<close> (lines 78-92). After the step
  to the next prototype the source reads \<^verbatim>\<open>proto.constructor\<close> before the loop tests
  \<^verbatim>\<open>proto\<close>: at the end of a chain that has not reached \<^verbatim>\<open>Object.prototype\<close> this
  throws a \<^verbatim>\<open>TypeError\<close>.
\<close>

fun walk :: "proto list \<Rightarrow> string list \<Rightarrow> error + string list" where
  "walk [] properties = Inr properties"
| "walk (p # rest) properties =
     (if proto_constructor p = ObjectCtor then Inr properties
      else
        (let properties' = fold proto_step (proto_props p) properties in
         case rest of
           [] \<Rightarrow> Inl TypeError
         | q # qs \<Rightarrow>
             if proto_constructor q = DecoratedCtor then Inr properties'
             else walk rest properties'))"

definition getSerializableProperties :: "target \<Rightarrow> error + string list" where
  "getSerializableProperties this = walk (protos this) (fold own_step (map fst (own this)) [])"

text \<open>\<^verbatim>\<open>this[propertyName]\<close>: the own property, or else the first one on the chain.\<close>

fun chain_lookup :: "proto list \<Rightarrow> string \<Rightarrow> jsval" where
  "chain_lookup [] name = VUndefined"
| "chain_lookup (p # ps) name =
     (case map_of (proto_props p) name of Some v \<Rightarrow> v | None \<Rightarrow> chain_lookup ps name)"

definition get_property :: "target \<Rightarrow> string \<Rightarrow> jsval" where
  "get_property this name =
     (case map_of (own this) name of Some v \<Rightarrow> v | None \<Rightarrow> chain_lookup (protos this) name)"

definition makePropertyPersistent :: "target \<Rightarrow> string \<Rightarrow> string \<Rightarrow> pfield" where
  "makePropertyPersistent this name pre =
     \<lparr>propertyName = name, storageKey = pre @ name,
      cachedValue = get_property this name, initialized = False,
      original = get_property this name\<rparr>"

text \<open>
  The body of the loop of \<^verbatim>\<open>setupPropertyPersistence\<close> (lines 53-64): the three
  \<^verbatim>\<open>continue\<close> tests in the order of the source, then the wrapping.
\<close>

definition setup_step :: "options \<Rightarrow> target \<Rightarrow> string \<Rightarrow> pfield list \<Rightarrow> pfield list" where
  "setup_step opts this name wrapped =
     (if name \<in> set (case opt_exclude opts of None \<Rightarrow> [] | Some ex \<Rightarrow> ex) then wrapped
      else if (case opt_include opts of None \<Rightarrow> False | Some inc \<Rightarrow> name \<notin> set inc)
        then wrapped
      else if typeof (get_property this name) = TFunction then wrapped
      else wrapped @ [makePropertyPersistent this name
                       (case opt_prefix opts of None \<Rightarrow> [] | Some pre \<Rightarrow> pre)])"

definition setupPropertyPersistence :: "options \<Rightarrow> target \<Rightarrow> error + pfield list" where
  "setupPropertyPersistence opts this =
     (case getSerializableProperties this of
        Inl e \<Rightarrow> Inl e
      | Inr propertyNames \<Rightarrow> Inr (fold (setup_step opts this) propertyNames []))"

definition init_error :: "error \<Rightarrow> console_line" where
  "init_error e = (LError, ''Failed to initialize persistence storage:'', Some e)"

definition initializeStorage :: "do_state option \<Rightarrow> world \<Rightarrow> world" where
  "initializeStorage state w =
     (if has_sql state then
        (case exec_create (sql w) of
           (Inr u, s') \<Rightarrow> w\<lparr>sql := s'\<rparr>
         | (Inl e, s') \<Rightarrow> w\<lparr>sql := s', console := console w @ [init_error e]\<rparr>)
      else w)"

text \<open>
  The decorated instance: the state it was attached to, what \<^verbatim>\<open>super\<close> left, and the
  accessor pairs installed over it.
\<close>

record persistable =
  durableObjectState :: "do_state option"
  this_target :: target
  accessors :: "pfield list"

text \<open>
  The constructor (lines 18-27). \<open>arg\<close> is \<^verbatim>\<open>args[0]\<close> when it is an object with a
  \<^verbatim>\<open>storage\<close> key, and \<open>None\<close> otherwise. An exception of the registry leaves the
  constructor; the table has been created by then.
\<close>

definition construct ::
  "options \<Rightarrow> do_state option \<Rightarrow> target \<Rightarrow> world \<Rightarrow> (error + persistable) \<times> world" where
  "construct opts arg this w =
     (case arg of
        None \<Rightarrow> (Inr \<lparr>durableObjectState = None, this_target = this, accessors = []\<rparr>, w)
      | Some st \<Rightarrow>
          (let w' = initializeStorage (Some st) w in
           case setupPropertyPersistence opts this of
             Inl e \<Rightarrow> (Inl e, w')
           | Inr fs \<Rightarrow>
               (Inr \<lparr>durableObjectState = Some st, this_target = this, accessors = fs\<rparr>, w')))"

section \<open>Sequences of accesses to one field\<close>

text \<open>
  What can happen to a wrapped field during the life of its instance: the property is
  read, it is assigned, or something outside the instance changes the database or its
  condition.
\<close>

datatype access = Read | Write jsval | Outside sql_storage

fun step :: "do_state option \<Rightarrow> access \<Rightarrow> pfield \<times> world \<Rightarrow> pfield \<times> world" where
  "step state Read (f, w) = snd (getter state f w)"
| "step state (Write v) (f, w) = setter state f v w"
| "step state (Outside s) (f, w) = (f, w\<lparr>sql := s\<rparr>)"

text \<open>An assignment followed at once by a read, in one instance.\<close>

definition write_then_read ::
  "do_state option \<Rightarrow> pfield \<Rightarrow> jsval \<Rightarrow> world \<Rightarrow> jsval \<times> pfield \<times> world" where
  "write_then_read state f v w = (case setter state f v w of (f', w') \<Rightarrow> getter state f' w')"

text \<open>How many accesses of a sequence change the flag \<^verbatim>\<open>initialized\<close>.\<close>

fun changes :: "do_state option \<Rightarrow> access list \<Rightarrow> pfield \<times> world \<Rightarrow> nat" where
  "changes state [] c = 0"
| "changes state (a # as) c =
     (if initialized (fst (step state a c)) = initialized (fst c) then 0 else 1)
     + changes state as (step state a c)"

section \<open>Values that JSON represents\<close>

text \<open>
  The values that a JSON text represents as they are: \<^verbatim>\<open>null\<close>, booleans, finite
  numbers, strings, arrays of such values, and plain objects of such values. The keys of
  an object are distinct; an object with an own property named \<^verbatim>\<open>constructor\<close> is left
  out, since the validator does not take it for an object whose constructor is
  \<^verbatim>\<open>Object\<close>.
\<close>

fun json_value :: "jsval \<Rightarrow> bool" where
  "json_value VNull = True"
| "json_value (VBoolean b) = True"
| "json_value (VNumber n) = (case n of Finite r \<Rightarrow> True | _ \<Rightarrow> False)"
| "json_value (VString s) = True"
| "json_value (VArray xs) = list_all json_value xs"
| "json_value (VPlain ps) =
     (distinct (map fst ps) \<and> map_of ps ''constructor'' = None
      \<and> list_all (\<lambda>p. json_value (snd p)) ps)"
| "json_value v = False"

section \<open>The validator as the specification words it\<close>



section \<open>The validator on values that hold references\<close>












section \<open>Scenarios\<close>

text \<open>
  The example class of the repository has a field \<^verbatim>\<open>counter = 0\<close> and an own property
  \<^verbatim>\<open>tempCallback\<close> that holds a function. The stores: one with the table and no row,
  one on which every statement throws, one with the row \<^verbatim>\<open>5\<close> for the counter, one
  with a row that is not JSON.
\<close>

definition fresh_store :: sql_storage where
  "fresh_store =
     \<lparr>table = Some Map.empty, journal = [], create_throws = False,
      select_throws = False, insert_throws = False\<rparr>"

definition broken_store :: sql_storage where
  "broken_store =
     \<lparr>table = None, journal = [], create_throws = True,
      select_throws = True, insert_throws = True\<rparr>"

definition stored_five :: sql_storage where
  "stored_five =
     \<lparr>table = Some [''counter'' \<mapsto> JsonText (JNumber 5)], journal = [],
      create_throws = False, select_throws = False, insert_throws = False\<rparr>"

definition stored_garbage :: sql_storage where
  "stored_garbage =
     \<lparr>table = Some [''counter'' \<mapsto> OtherText ''{''], journal = [],
      create_throws = False, select_throws = False, insert_throws = False\<rparr>"

definition quiet :: "sql_storage \<Rightarrow> world" where
  "quiet s = \<lparr>sql = s, console = []\<rparr>"

definition attached :: "do_state option" where
  "attached = Some (DurableObjectState True)"

definition storage_without_sql :: "do_state option" where
  "storage_without_sql = Some (DurableObjectState False)"

definition counter :: pfield where
  "counter =
     \<lparr>propertyName = ''counter'', storageKey = ''counter'',
      cachedValue = VNumber (Finite 0), initialized = False,
      original = VNumber (Finite 0)\<rparr>"

definition callback :: jsval where
  "callback = VFunction (Inr None) None"

definition example_target :: target where
  "example_target =
     \<lparr>own = [(''counter'', VNumber (Finite 0)), (''tempCallback'', callback),
             (''_internalState'', VPlain [])],
      protos = [\<lparr>proto_constructor = OtherCtor 0,
                 proto_props = [(''constructor'', callback), (''isSerializable'', callback)]\<rparr>,
                \<lparr>proto_constructor = DecoratedCtor,
                 proto_props = [(''constructor'', callback), (''increment'', callback)]\<rparr>,
                \<lparr>proto_constructor = ObjectCtor, proto_props = []\<rparr>]\<rparr>"

definition no_options :: options where
  "no_options = \<lparr>opt_exclude = None, opt_include = None, opt_prefix = None\<rparr>"


definition new_year :: jsval where
  "new_year = VDate (Some ''2024-01-01T00:00:00.000Z'')"

definition only_counter :: options where
  "only_counter =
     \<lparr>opt_exclude = None, opt_include = Some [''counter''], opt_prefix = None\<rparr>"

definition counter_in_both :: options where
  "counter_in_both =
     \<lparr>opt_exclude = Some [''counter''], opt_include = Some [''counter''], opt_prefix = None\<rparr>"



section \<open>What the constructor wrapped\<close>

text \<open>
  The names of the accessor pairs of the constructed instance (none when the constructor
  threw).
\<close>

definition wrapped_names :: "(error + persistable) \<times> world \<Rightarrow> string list" where
  "wrapped_names r = (case fst r of Inl e \<Rightarrow> [] | Inr i \<Rightarrow> map propertyName (accessors i))"

text \<open>
  Section 4.2 of the specification: a name is dropped if it is in \<^verbatim>\<open>exclude\<close>, or if
  \<^verbatim>\<open>include\<close> is specified and the name is absent from it, or if the current value at
  that name is callable.
\<close>

definition dropped :: "options \<Rightarrow> target \<Rightarrow> string \<Rightarrow> bool" where
  "dropped opts this name =
     (name \<in> set (case opt_exclude opts of None \<Rightarrow> [] | Some ex \<Rightarrow> ex)
      \<or> (case opt_include opts of None \<Rightarrow> False | Some inc \<Rightarrow> name \<notin> set inc)
      \<or> typeof (get_property this name) = TFunction)"

text \<open>
  The Property Registry of the specification (sections 2 and 4.2) discovers the names and
  applies the filtering to them; its output is the list of names that go to the
  Interceptor. In the source the discovery is \<^verbatim>\<open>getSerializableProperties\<close> and the
  filtering is the three tests of the loop of \<^verbatim>\<open>setupPropertyPersistence\<close>.
\<close>

definition registry_output :: "options \<Rightarrow> target \<Rightarrow> error + string list" where
  "registry_output opts this =
     (case getSerializableProperties this of
        Inl e \<Rightarrow> Inl e
      | Inr names \<Rightarrow> Inr (filter (\<lambda>name. \<not> dropped opts this name) names))"

section \<open>Facts about the accessor pair\<close>

lemmas scenario_defs =
  fresh_store_def broken_store_def stored_five_def quiet_def
  attached_def counter_def callback_def

lemma setter_initialized: "initialized (fst (setter state f v w)) = initialized f"
  by (simp add: setter_def Let_def split: sum.splits prod.splits)

lemma setter_cachedValue: "cachedValue (fst (setter state f v w)) = v"
  by (simp add: setter_def Let_def split: sum.splits prod.splits)

lemma setter_field: "fst (setter state f V w) = f\<lparr>cachedValue := V\<rparr>"
  by (simp add: setter_def Let_def split: sum.splits prod.splits)

lemma load_ignores_cached:
  "cachedValue (fst (load (f\<lparr>cachedValue := v\<rparr>) w)) = cachedValue (fst (load f w))"
  by (simp add: load_def split: prod.splits sum.splits option.splits)

lemma getter_first:
  "\<not> initialized f \<Longrightarrow> has_sql state \<Longrightarrow>
   fst (getter state f w) = cachedValue (fst (load f w))"
  by (simp add: getter_def Let_def split: prod.splits)

lemma getter_loaded: "initialized f \<Longrightarrow> getter state f w = (cachedValue f, f, w)"
  by (simp add: getter_def)

lemma getter_initialized: "initialized (fst (snd (getter state f w)))"
  by (simp add: getter_def Let_def split: prod.splits)

lemma step_loaded_iff:
  "initialized (fst (step state a c)) = (initialized (fst c) \<or> a = Read)"
  by (cases a; cases c) (simp_all add: getter_initialized setter_initialized)

lemma fold_step_initialized:
  "initialized (fst (fold (step state) as c)) = (initialized (fst c) \<or> Read \<in> set as)"
  by (induction as arbitrary: c) (auto simp: step_loaded_iff)

lemma changes_loaded: "initialized (fst c) \<Longrightarrow> changes state as c = 0"
  by (induction as arbitrary: c) (simp_all add: step_loaded_iff)

lemma changes_le_1: "changes state as c \<le> 1"
proof (induction as arbitrary: c)
  case Nil
  show ?case by simp
next
  case (Cons a as)
  show ?case
  proof (cases "initialized (fst (step state a c))")
    case True
    then have "changes state as (step state a c) = 0"
      by (rule changes_loaded)
    then show ?thesis by simp
  next
    case False
    then have "\<not> initialized (fst c)"
      by (simp add: step_loaded_iff)
    with False Cons [of "step state a c"] show ?thesis by simp
  qed
qed

section \<open>The first read\<close>

text \<open>
  Claim C4, amended. On an instance whose state has \<^verbatim>\<open>storage.sql\<close>, the read of a
  field that is not yet initialized issues exactly one statement, the \<^verbatim>\<open>SELECT\<close> by
  the field's storage key, and changes no row. A row that parses gives the value; no row
  gives the original value; a lookup that throws, or a row that does not parse, gives the
  original value and a warning on the console. On an instance whose state has a
  \<^verbatim>\<open>storage\<close> key and no \<^verbatim>\<open>storage.sql\<close>, that read issues no statement, writes
  nothing to the console and returns the value in memory. In every case the field is
  initialized afterwards and the read returns the cached value; every read of an
  initialized field returns its cached value and leaves the world as it is, whatever the
  world is.
\<close>

theorem lazy_load:
  assumes "\<not> initialized f"
  shows
   "(has_sql state \<longrightarrow>
      journal (sql (snd (snd (getter state f w)))) = journal (sql w) @ [Select (storageKey f)] \<and>
      table (sql (snd (snd (getter state f w)))) = table (sql w) \<and>
      (\<not> select_throws (sql w) \<and> table (sql w) = Some t \<and> t (storageKey f) = Some txt
         \<and> JSON_parse txt = Inr v \<longrightarrow>
         fst (getter state f w) = v \<and> console (snd (snd (getter state f w))) = console w) \<and>
      (\<not> select_throws (sql w) \<and> table (sql w) = Some t \<and> t (storageKey f) = None \<longrightarrow>
         fst (getter state f w) = original f
         \<and> console (snd (snd (getter state f w))) = console w) \<and>
      (select_throws (sql w) \<or> table (sql w) = None \<longrightarrow>
         fst (getter state f w) = original f
         \<and> console (snd (snd (getter state f w)))
             = console w @ [load_warning (propertyName f) SqlError]) \<and>
      (\<not> select_throws (sql w) \<and> table (sql w) = Some t \<and> t (storageKey f) = Some txt
         \<and> JSON_parse txt = Inl e \<longrightarrow>
         fst (getter state f w) = original f
         \<and> console (snd (snd (getter state f w)))
             = console w @ [load_warning (propertyName f) e])) \<and>
    (\<not> has_sql state \<longrightarrow>
      getter state f w = (cachedValue f, f\<lparr>initialized := True\<rparr>, w)) \<and>
    initialized (fst (snd (getter state f w))) \<and>
    fst (getter state f w) = cachedValue (fst (snd (getter state f w))) \<and>
    (initialized g \<longrightarrow> getter state g w' = (cachedValue g, g, w'))"
proof -
  have with_store:
    "journal (sql (snd (snd (getter state f w)))) = journal (sql w) @ [Select (storageKey f)] \<and>
     table (sql (snd (snd (getter state f w)))) = table (sql w) \<and>
     (\<not> select_throws (sql w) \<and> table (sql w) = Some t \<and> t (storageKey f) = Some txt
        \<and> JSON_parse txt = Inr v \<longrightarrow>
        fst (getter state f w) = v \<and> console (snd (snd (getter state f w))) = console w) \<and>
     (\<not> select_throws (sql w) \<and> table (sql w) = Some t \<and> t (storageKey f) = None \<longrightarrow>
        fst (getter state f w) = original f
        \<and> console (snd (snd (getter state f w))) = console w) \<and>
     (select_throws (sql w) \<or> table (sql w) = None \<longrightarrow>
        fst (getter state f w) = original f
        \<and> console (snd (snd (getter state f w)))
            = console w @ [load_warning (propertyName f) SqlError]) \<and>
     (\<not> select_throws (sql w) \<and> table (sql w) = Some t \<and> t (storageKey f) = Some txt
        \<and> JSON_parse txt = Inl e \<longrightarrow>
        fst (getter state f w) = original f
        \<and> console (snd (snd (getter state f w)))
            = console w @ [load_warning (propertyName f) e])"
    if "has_sql state"
    using that assms
    by (auto simp: getter_def load_def exec_select_def Let_def
             split: option.splits sum.splits prod.splits)
  have without_store: "getter state f w = (cachedValue f, f\<lparr>initialized := True\<rparr>, w)"
    if "\<not> has_sql state"
    using that assms by (simp add: getter_def)
  have after: "initialized (fst (snd (getter state f w)))"
    by (rule getter_initialized)
  have returned: "fst (getter state f w) = cachedValue (fst (snd (getter state f w)))"
    by (simp add: getter_def Let_def split: prod.splits)
  have later: "getter state g w' = (cachedValue g, g, w')" if "initialized g"
    using that by (rule getter_loaded)
  from with_store without_store after returned later show ?thesis
    by blast
qed

theorem lazy_load_witness:
  "has_sql attached \<and> \<not> initialized counter \<and>
   fst (getter attached counter (quiet stored_five)) = VNumber (Finite 5) \<and>
   journal (sql (snd (snd (getter attached counter (quiet stored_five))))) = [Select ''counter''] \<and>
   console (snd (snd (getter attached counter (quiet stored_five)))) = [] \<and>
   fst (getter attached counter (quiet fresh_store)) = VNumber (Finite 0) \<and>
   console (snd (snd (getter attached counter (quiet fresh_store)))) = [] \<and>
   fst (getter attached counter (quiet broken_store)) = VNumber (Finite 0) \<and>
   console (snd (snd (getter attached counter (quiet broken_store))))
     = [load_warning ''counter'' SqlError] \<and>
   fst (getter attached counter (quiet stored_garbage)) = VNumber (Finite 0) \<and>
   console (snd (snd (getter attached counter (quiet stored_garbage))))
     = [load_warning ''counter'' SyntaxError] \<and>
   getter attached (fst (snd (getter attached counter (quiet stored_five)))) (quiet broken_store)
     = (VNumber (Finite 5), fst (snd (getter attached counter (quiet stored_five))),
        quiet broken_store) \<and>
   \<not> has_sql storage_without_sql \<and>
   getter storage_without_sql counter (quiet stored_five)
     = (VNumber (Finite 0), counter\<lparr>initialized := True\<rparr>, quiet stored_five)"
proof -
  have a: "has_sql attached" and b: "\<not> initialized counter"
    and n: "\<not> has_sql storage_without_sql"
    by (simp_all add: scenario_defs storage_without_sql_def)
  have five: "\<not> select_throws (sql (quiet stored_five))
      \<and> table (sql (quiet stored_five)) = Some [''counter'' \<mapsto> JsonText (JNumber 5)]
      \<and> [''counter'' \<mapsto> JsonText (JNumber 5)] (storageKey counter) = Some (JsonText (JNumber 5))
      \<and> JSON_parse (JsonText (JNumber 5)) = Inr (VNumber (Finite 5))"
    by (simp add: scenario_defs)
  have none: "\<not> select_throws (sql (quiet fresh_store))
      \<and> table (sql (quiet fresh_store)) = Some Map.empty
      \<and> Map.empty (storageKey counter) = None"
    by (simp add: scenario_defs)
  have broken: "select_throws (sql (quiet broken_store))"
    by (simp add: scenario_defs)
  have garbage: "\<not> select_throws (sql (quiet stored_garbage))
      \<and> table (sql (quiet stored_garbage)) = Some [''counter'' \<mapsto> OtherText ''{'']
      \<and> [''counter'' \<mapsto> OtherText ''{''] (storageKey counter) = Some (OtherText ''{'')
      \<and> JSON_parse (OtherText ''{'') = Inl SyntaxError"
    by (simp add: scenario_defs stored_garbage_def)
  note r1 = lazy_load [OF b, where state = attached and w = "quiet stored_five"
      and g = "fst (snd (getter attached counter (quiet stored_five)))"
      and w' = "quiet broken_store"]
  note r2 = lazy_load [OF b, where state = attached and w = "quiet fresh_store"]
  note r3 = lazy_load [OF b, where state = attached and w = "quiet broken_store"]
  note r4 = lazy_load [OF b, where state = attached and w = "quiet stored_garbage"]
  note r5 = lazy_load [OF b, where state = storage_without_sql and w = "quiet stored_five"]
  from r1 a five have c1:
    "fst (getter attached counter (quiet stored_five)) = VNumber (Finite 5)
     \<and> console (snd (snd (getter attached counter (quiet stored_five)))) = console (quiet stored_five)
     \<and> journal (sql (snd (snd (getter attached counter (quiet stored_five)))))
        = journal (sql (quiet stored_five)) @ [Select (storageKey counter)]
     \<and> getter attached (fst (snd (getter attached counter (quiet stored_five)))) (quiet broken_store)
        = (cachedValue (fst (snd (getter attached counter (quiet stored_five)))),
           fst (snd (getter attached counter (quiet stored_five))), quiet broken_store)
     \<and> fst (getter attached counter (quiet stored_five))
        = cachedValue (fst (snd (getter attached counter (quiet stored_five))))"
    by blast
  from r2 a none have c2:
    "fst (getter attached counter (quiet fresh_store)) = original counter
     \<and> console (snd (snd (getter attached counter (quiet fresh_store)))) = console (quiet fresh_store)"
    by blast
  from r3 a broken have c3:
    "fst (getter attached counter (quiet broken_store)) = original counter
     \<and> console (snd (snd (getter attached counter (quiet broken_store))))
        = console (quiet broken_store) @ [load_warning (propertyName counter) SqlError]"
    by blast
  from r4 a garbage have c4:
    "fst (getter attached counter (quiet stored_garbage)) = original counter
     \<and> console (snd (snd (getter attached counter (quiet stored_garbage))))
        = console (quiet stored_garbage) @ [load_warning (propertyName counter) SyntaxError]"
    by blast
  from r5 n have c6:
    "getter storage_without_sql counter (quiet stored_five)
       = (cachedValue counter, counter\<lparr>initialized := True\<rparr>, quiet stored_five)"
    by blast
  have d: "original counter = VNumber (Finite 0)" "propertyName counter = ''counter''"
    "storageKey counter = ''counter''" "console (quiet s) = []" "journal (sql (quiet stored_five)) = []"
    "cachedValue counter = VNumber (Finite 0)"
    for s
    by (simp_all add: scenario_defs)
  from c1 have c5:
    "cachedValue (fst (snd (getter attached counter (quiet stored_five)))) = VNumber (Finite 5)"
    by metis
  from a b n c1 c2 c3 c4 c5 c6 show ?thesis
    by (simp add: d)
qed

text \<open>
  The claim as stated fails for a wrapped field of an instance whose state has a
  \<^verbatim>\<open>storage\<close> key and no \<^verbatim>\<open>storage.sql\<close>. The constructor wraps the counter of the
  example class all the same. With the row 5 in the database, the first read of the
  counter issues no statement and returns 0, the value in memory; and after the
  assignment of 7 the first read returns 7, which is neither the row nor the default.
\<close>

theorem lazy_load_counterexample:
  "fst (construct no_options storage_without_sql example_target (quiet stored_five))
     = Inr \<lparr>durableObjectState = storage_without_sql, this_target = example_target,
            accessors = [counter]\<rparr> \<and>
   \<not> initialized counter \<and>
   journal (sql (snd (snd (getter storage_without_sql counter (quiet stored_five))))) = [] \<and>
   fst (getter storage_without_sql counter (quiet stored_five)) = VNumber (Finite 0) \<and>
   VNumber (Finite 0) \<noteq> VNumber (Finite 5) \<and>
   fst (write_then_read storage_without_sql counter (VNumber (Finite 7)) (quiet stored_five))
     = VNumber (Finite 7)"
  by (simp add: construct_def setupPropertyPersistence_def getSerializableProperties_def
      example_target_def own_step_def proto_step_def add_def setup_step_def get_property_def
      makePropertyPersistent_def initializeStorage_def no_options_def write_then_read_def
      getter_def setter_def storage_without_sql_def Let_def scenario_defs)

section \<open>The state of a field\<close>

text \<open>
  Claim C5. No assignment changes the flag \<^verbatim>\<open>initialized\<close>, whether the value is
  serializable or not and whatever the store does. A read of an initialized field leaves
  the field and the world as they are. Over any sequence of reads, assignments and
  changes of the store from outside, a field that is initialized stays so, a field that
  becomes initialized was read, and the flag changes at most once.
\<close>

theorem initialized_once:
  "initialized (fst (setter state f v w)) = initialized f \<and>
   (initialized f \<longrightarrow> snd (getter state f w) = (f, w)) \<and>
   (initialized (fst c) \<longrightarrow> initialized (fst (fold (step state) as c))) \<and>
   (\<not> initialized (fst c) \<and> initialized (fst (fold (step state) as c)) \<longrightarrow> Read \<in> set as) \<and>
   changes state as c \<le> 1"
  using changes_le_1 [of state as c]
  by (auto simp: setter_initialized getter_loaded fold_step_initialized)

theorem initialized_once_witness:
  "initialized (fst (setter attached counter (VNumber (Finite 5)) (quiet fresh_store)))
     = initialized counter \<and>
   \<not> initialized (fst (counter, quiet fresh_store)) \<and>
   initialized (fst (fold (step attached)
     [Write (VNumber (Finite 5)), Read, Write callback, Outside broken_store, Read]
     (counter, quiet fresh_store))) \<and>
   Read \<in> set [Write (VNumber (Finite 5)), Read, Write callback, Outside broken_store, Read] \<and>
   changes attached
     [Write (VNumber (Finite 5)), Read, Write callback, Outside broken_store, Read]
     (counter, quiet fresh_store) = 1 \<and>
   initialized (fst (step attached Read (counter, quiet fresh_store))) \<and>
   snd (getter attached (fst (step attached Read (counter, quiet fresh_store)))
          (quiet broken_store))
     = (fst (step attached Read (counter, quiet fresh_store)), quiet broken_store)"
  using
    initialized_once [of attached counter "VNumber (Finite 5)" "quiet fresh_store"
      "(counter, quiet fresh_store)"
      "[Write (VNumber (Finite 5)), Read, Write callback, Outside broken_store, Read]"]
    initialized_once [of attached "fst (step attached Read (counter, quiet fresh_store))"
      VNull "quiet broken_store"]
  by (simp add: scenario_defs getter_def setter_def load_def exec_select_def exec_insert_def
      has_toJSON_def not_serializable_warning_def Let_def)

section \<open>The assignment of a value that is not serializable\<close>

text \<open>
  Claim C6. When \<^verbatim>\<open>isSerializable\<close> is false of the assigned value, the setter makes
  it the cached value, writes one warning to the console, and leaves the database as it is:
  no statement is issued and no row changes.
\<close>

theorem non_serializable_write:
  assumes "\<not> isSerializable W"
  shows "cachedValue (fst (setter state f W w)) = W \<and>
         sql (snd (setter state f W w)) = sql w \<and>
         console (snd (setter state f W w))
           = console w @ [not_serializable_warning (propertyName f)] \<and>
         fst (not_serializable_warning (propertyName f)) = LWarn"
  using assms by (simp add: setter_def not_serializable_warning_def)

theorem non_serializable_write_witness:
  "\<not> isSerializable callback \<and>
   cachedValue (fst (setter attached counter callback (quiet stored_five))) = callback \<and>
   sql (snd (setter attached counter callback (quiet stored_five))) = stored_five \<and>
   console (snd (setter attached counter callback (quiet stored_five)))
     = [not_serializable_warning ''counter'']"
proof -
  have n: "\<not> isSerializable callback"
    by (simp add: callback_def has_toJSON_def)
  from non_serializable_write [OF n, of attached counter "quiet stored_five"] n
  show ?thesis
    by (simp add: quiet_def counter_def)
qed

section \<open>An assignment followed by a read\<close>

text \<open>
  Claim C1, amended. Let the assigned value be serializable: \<^verbatim>\<open>isSerializable\<close>
  returns true on it. After the assignment the cached value is the assigned value,
  whatever the store does. When the field has been read before (it is initialized), or
  when the state has no \<^verbatim>\<open>storage.sql\<close>, the read that follows the assignment returns
  the assigned value and the cached value is still that value. When the field has not
  been read before and the state has a store, the read that follows returns what the
  first read of the field returns from the store as the assignment left it, whatever
  value is in memory.
\<close>

theorem write_then_read_visibility:
  assumes "isSerializable V"
  shows
  "cachedValue (fst (setter state f V w)) = V \<and>
   (initialized f \<or> \<not> has_sql state \<longrightarrow>
      fst (write_then_read state f V w) = V \<and>
      cachedValue (fst (snd (write_then_read state f V w))) = V) \<and>
   (\<not> initialized f \<and> has_sql state \<longrightarrow>
      fst (write_then_read state f V w) = fst (getter state f (snd (setter state f V w))))"
proof -
  have 1: "cachedValue (fst (setter state f V w)) = V"
    by (rule setter_cachedValue)
  have 2: "fst (write_then_read state f V w) = V \<and>
      cachedValue (fst (snd (write_then_read state f V w))) = V"
    if "initialized f \<or> \<not> has_sql state"
    using that
    by (auto simp: write_then_read_def getter_def setter_def Let_def
        split: prod.splits sum.splits)
  have 3: "fst (write_then_read state f V w) = fst (getter state f (snd (setter state f V w)))"
    if "\<not> initialized f \<and> has_sql state"
  proof -
    have "fst (write_then_read state f V w)
        = fst (getter state (f\<lparr>cachedValue := V\<rparr>) (snd (setter state f V w)))"
      using setter_field [of state f V w]
      by (cases "setter state f V w") (simp add: write_then_read_def)
    also have "\<dots>
        = cachedValue (fst (load (f\<lparr>cachedValue := V\<rparr>) (snd (setter state f V w))))"
      using that by (simp add: getter_first)
    also have "\<dots> = cachedValue (fst (load f (snd (setter state f V w))))"
      by (rule load_ignores_cached)
    also have "\<dots> = fst (getter state f (snd (setter state f V w)))"
      using that by (simp add: getter_first)
    finally show ?thesis .
  qed
  from 1 2 3 show ?thesis by blast
qed

theorem write_then_read_visibility_witness:
  "isSerializable (VNumber (Finite 7)) \<and>
   initialized (fst (snd (getter attached counter (quiet broken_store)))) \<and>
   fst (write_then_read attached (fst (snd (getter attached counter (quiet broken_store))))
          (VNumber (Finite 7)) (quiet broken_store)) = VNumber (Finite 7) \<and>
   \<not> initialized counter \<and> has_sql attached \<and>
   fst (write_then_read attached counter (VNumber (Finite 7)) (quiet stored_five))
     = VNumber (Finite 7)"
proof -
  have s: "isSerializable (VNumber (Finite 7))"
    by simp
  have i: "initialized (fst (snd (getter attached counter (quiet broken_store))))"
    by (rule getter_initialized)
  have n: "\<not> initialized counter \<and> has_sql attached"
    by (simp add: scenario_defs)
  from write_then_read_visibility
    [OF s, of attached "fst (snd (getter attached counter (quiet broken_store)))"
      "quiet broken_store"] i
  have a: "fst (write_then_read attached (fst (snd (getter attached counter (quiet broken_store))))
          (VNumber (Finite 7)) (quiet broken_store)) = VNumber (Finite 7)"
    by blast
  from write_then_read_visibility [OF s, of attached counter "quiet stored_five"] n
  have "fst (write_then_read attached counter (VNumber (Finite 7)) (quiet stored_five))
      = fst (getter attached counter
               (snd (setter attached counter (VNumber (Finite 7)) (quiet stored_five))))"
    by blast
  also have "\<dots> = VNumber (Finite 7)"
    by (simp add: scenario_defs getter_def setter_def load_def exec_insert_def exec_select_def
        Let_def)
  finally have b:
    "fst (write_then_read attached counter (VNumber (Finite 7)) (quiet stored_five))
      = VNumber (Finite 7)" .
  from s i a n b show ?thesis by simp
qed

text \<open>
  The claim as stated fails when the assignment is the first access to the field: the
  counter holds its default 0 and has not been read, the insertion throws, and the read
  that follows the assignment of 7 looks the key up, finds no row and returns 0.
\<close>

theorem write_then_read_counterexample:
  "isSerializable (VNumber (Finite 7)) \<and> \<not> initialized counter \<and>
   fst (write_then_read attached counter (VNumber (Finite 7))
          (quiet (fresh_store\<lparr>insert_throws := True\<rparr>))) = VNumber (Finite 0) \<and>
   VNumber (Finite 0) \<noteq> VNumber (Finite 7)"
  by (simp add: write_then_read_def getter_def setter_def load_def exec_insert_def
      exec_select_def Let_def scenario_defs)

section \<open>The round trip through JSON\<close>

lemma update_append: "k \<notin> fst ` set al \<Longrightarrow> AList.update k v al = al @ [(k, v)]"
  by (induction al) auto

lemma foldl_update_distinct:
  "distinct (map fst ms) \<Longrightarrow> fst ` set acc \<inter> fst ` set ms = {} \<Longrightarrow>
   foldl (\<lambda>acc p. AList.update (fst p) (g (snd p)) acc) acc ms
     = acc @ map (\<lambda>p. (fst p, g (snd p))) ms"
proof (induction ms arbitrary: acc)
  case Nil
  then show ?case by simp
next
  case (Cons m ms)
  have "fst m \<notin> fst ` set acc"
    using Cons.prems by auto
  then have u: "AList.update (fst m) (g (snd m)) acc = acc @ [(fst m, g (snd m))]"
    by (rule update_append)
  have "fst ` set (acc @ [(fst m, g (snd m))]) \<inter> fst ` set ms = {}"
    using Cons.prems by auto
  with Cons.IH [of "acc @ [(fst m, g (snd m))]"] Cons.prems u show ?case by simp
qed

lemma serialize_array_roundtrip:
  "(\<And>x. x \<in> set xs \<Longrightarrow> \<exists>j. JSON_stringify x = Inr (Some j) \<and> revive j = x) \<Longrightarrow>
   \<exists>js. serialize_array (map JSON_stringify xs) = Inr js \<and> map revive js = xs"
proof (induction xs)
  case Nil
  then show ?case by simp
next
  case (Cons x xs)
  have "\<exists>j. JSON_stringify x = Inr (Some j) \<and> revive j = x"
    by (rule Cons.prems) simp
  then obtain j where j: "JSON_stringify x = Inr (Some j)" "revive j = x"
    by blast
  have "\<exists>js. serialize_array (map JSON_stringify xs) = Inr js \<and> map revive js = xs"
    by (rule Cons.IH) (simp add: Cons.prems)
  then obtain js where "serialize_array (map JSON_stringify xs) = Inr js" "map revive js = xs"
    by blast
  with j show ?case by simp
qed

lemma serialize_object_roundtrip:
  "(\<And>p. p \<in> set ps \<Longrightarrow> \<exists>j. JSON_stringify (snd p) = Inr (Some j) \<and> revive j = snd p) \<Longrightarrow>
   \<exists>js. serialize_object (map (\<lambda>p. (fst p, JSON_stringify (snd p))) ps) = Inr js
        \<and> map (\<lambda>p. (fst p, revive (snd p))) js = ps"
proof (induction ps)
  case Nil
  then show ?case by simp
next
  case (Cons p ps)
  have "\<exists>j. JSON_stringify (snd p) = Inr (Some j) \<and> revive j = snd p"
    by (rule Cons.prems) simp
  then obtain j where j: "JSON_stringify (snd p) = Inr (Some j)" "revive j = snd p"
    by blast
  have "\<exists>js. serialize_object (map (\<lambda>p. (fst p, JSON_stringify (snd p))) ps) = Inr js
        \<and> map (\<lambda>p. (fst p, revive (snd p))) js = ps"
    by (rule Cons.IH) (simp add: Cons.prems)
  then obtain js where
    "serialize_object (map (\<lambda>p. (fst p, JSON_stringify (snd p))) ps) = Inr js"
    "map (\<lambda>p. (fst p, revive (snd p))) js = ps"
    by blast
  with j show ?case by (cases p) simp
qed

lemma json_value_no_toJSON:
  assumes "list_all (\<lambda>p. json_value (snd p)) ps"
  shows "toJSON_of (VPlain ps) = None"
proof (cases "map_of ps ''toJSON''")
  case None
  then show ?thesis by simp
next
  case (Some x)
  then have "(''toJSON'', x) \<in> set ps"
    by (rule map_of_SomeD)
  with assms have "json_value x"
    by (auto simp: list_all_iff)
  then show ?thesis using Some by (cases x) simp_all
qed

lemma json_roundtrip:
  "json_value v \<Longrightarrow> \<exists>j. JSON_stringify v = Inr (Some j) \<and> revive j = v"
proof (induction v)
  case (VArray xs)
  have "\<exists>js. serialize_array (map JSON_stringify xs) = Inr js \<and> map revive js = xs"
  proof (rule serialize_array_roundtrip)
    fix x
    assume "x \<in> set xs"
    then show "\<exists>j. JSON_stringify x = Inr (Some j) \<and> revive j = x"
      using VArray by (auto simp: list_all_iff)
  qed
  then show ?case by (auto simp: as_array_def)
next
  case (VPlain ps)
  have d: "distinct (map fst ps)" and all: "list_all (\<lambda>p. json_value (snd p)) ps"
    using VPlain.prems by auto
  have "\<exists>js. serialize_object (map (\<lambda>p. (fst p, JSON_stringify (snd p))) ps) = Inr js
        \<and> map (\<lambda>p. (fst p, revive (snd p))) js = ps"
  proof (rule serialize_object_roundtrip)
    fix p
    assume p: "p \<in> set ps"
    then have "json_value (snd p)"
      using all by (auto simp: list_all_iff)
    moreover have "snd p \<in> Basic_BNFs.snds p"
      by (cases p) simp
    ultimately show "\<exists>j. JSON_stringify (snd p) = Inr (Some j) \<and> revive j = snd p"
      using VPlain.IH p by blast
  qed
  then obtain js where
    js: "serialize_object (map (\<lambda>p. (fst p, JSON_stringify (snd p))) ps) = Inr js"
        "map (\<lambda>p. (fst p, revive (snd p))) js = ps"
    by blast
  have "map fst (map (\<lambda>p. (fst p, revive (snd p))) js) = map fst js"
    by (simp add: comp_def)
  then have "distinct (map fst js)"
    using js(2) d by simp
  then have "foldl (\<lambda>acc p. AList.update (fst p) (revive (snd p)) acc) [] js
      = [] @ map (\<lambda>p. (fst p, revive (snd p))) js"
    by (intro foldl_update_distinct) auto
  then show ?case
    using js json_value_no_toJSON [OF all] by (simp add: as_object_def)
qed (auto split: jsnum.splits)

lemma json_value_isSerializable: "json_value v \<Longrightarrow> isSerializable v"
proof (induction v)
  case (VArray xs)
  then show ?case by (auto simp: list_all_iff)
next
  case (VPlain ps)
  have "\<And>p. p \<in> set ps \<Longrightarrow> isSerializable (snd p)"
  proof -
    fix p
    assume p: "p \<in> set ps"
    then have "json_value (snd p)"
      using VPlain.prems by (auto simp: list_all_iff)
    moreover have "snd p \<in> Basic_BNFs.snds p"
      by (cases p) simp
    ultimately show "isSerializable (snd p)"
      using VPlain.IH p by blast
  qed
  then show ?case using VPlain.prems by (auto simp: list_all_iff constructor_is_Object_def)
qed auto

lemma setter_upsert:
  assumes "isSerializable V" and "JSON_stringify V = Inr (Some j)" and "has_sql state"
    and "table (sql w) = Some t" and "\<not> insert_throws (sql w)"
  shows "table (sql (snd (setter state f V w))) = Some (t(storageKey f \<mapsto> JsonText j))
       \<and> select_throws (sql (snd (setter state f V w))) = select_throws (sql w)"
  using assms by (simp add: setter_def exec_insert_def Let_def)

lemma getter_row:
  assumes "has_sql state" and "\<not> initialized g" and "table (sql w) = Some t"
    and "\<not> select_throws (sql w)" and "t (storageKey g) = Some (JsonText j)"
  shows "fst (getter state g w) = revive j"
  using assms by (simp add: getter_def load_def exec_select_def Let_def)

text \<open>
  Claim C2, amended. Let \<open>V\<close> be made of \<^verbatim>\<open>null\<close>, booleans, finite numbers, strings,
  arrays and plain objects. The validator accepts \<open>V\<close>. When \<open>V\<close> is assigned on an
  instance with a store and the insertion succeeds (the table is there and the statement
  does not throw), and a field of a fresh instance with the same storage key is then read
  against that store, and the lookup does not throw, the read returns \<open>V\<close>.
\<close>

theorem durable_round_trip:
  assumes "json_value V" and "has_sql state"
    and "table (sql w) = Some t" and "\<not> insert_throws (sql w)"
    and "\<not> select_throws (sql w)"
    and "storageKey g = storageKey f" and "\<not> initialized g"
  shows "isSerializable V \<and> fst (getter state g (snd (setter state f V w))) = V"
proof -
  have s: "isSerializable V"
    using assms(1) by (rule json_value_isSerializable)
  from json_roundtrip [OF assms(1)] obtain j
    where j: "JSON_stringify V = Inr (Some j)" "revive j = V"
    by blast
  note u = setter_upsert [OF s j(1) assms(2) assms(3) assms(4), of f]
  have "fst (getter state g (snd (setter state f V w))) = revive j"
    by (rule getter_row [OF assms(2) assms(7), of _ "t(storageKey f \<mapsto> JsonText j)"])
       (use u assms in simp_all)
  with s j show ?thesis by simp
qed

theorem durable_round_trip_witness:
  "json_value (VArray [VString ''a'', VString ''b'']) \<and> has_sql attached \<and>
   table (sql (quiet fresh_store)) = Some Map.empty \<and>
   \<not> insert_throws (sql (quiet fresh_store)) \<and> \<not> select_throws (sql (quiet fresh_store)) \<and>
   \<not> initialized counter \<and>
   fst (getter attached counter
          (snd (setter attached counter (VArray [VString ''a'', VString ''b''])
                  (quiet fresh_store))))
     = VArray [VString ''a'', VString ''b'']"
proof -
  have h: "json_value (VArray [VString ''a'', VString ''b''])" "has_sql attached"
    "table (sql (quiet fresh_store)) = Some Map.empty"
    "\<not> insert_throws (sql (quiet fresh_store))" "\<not> select_throws (sql (quiet fresh_store))"
    "storageKey counter = storageKey counter" "\<not> initialized counter"
    by (simp_all add: scenario_defs)
  from durable_round_trip [OF h] h show ?thesis by simp
qed

text \<open>
  The claim as stated fails on three inputs. A date is accepted by the validator, its
  insertion succeeds, and the fresh read returns the ISO string. The array that holds
  \<^verbatim>\<open>undefined\<close> is accepted, and comes back as the array that holds \<^verbatim>\<open>null\<close>. And
  after the insertion of 5 has succeeded, a lookup that throws makes the fresh read return
  the default 0.
\<close>

theorem durable_round_trip_counterexample:
  "isSerializable new_year \<and>
   table (sql (snd (setter attached counter new_year (quiet fresh_store))))
     = Some [''counter'' \<mapsto> JsonText (JString ''2024-01-01T00:00:00.000Z'')] \<and>
   fst (getter attached counter (snd (setter attached counter new_year (quiet fresh_store))))
     = VString ''2024-01-01T00:00:00.000Z'' \<and>
   VString ''2024-01-01T00:00:00.000Z'' \<noteq> new_year \<and>
   isSerializable (VArray [VUndefined]) \<and>
   table (sql (snd (setter attached counter (VArray [VUndefined]) (quiet fresh_store))))
     = Some [''counter'' \<mapsto> JsonText (JArray [JNull])] \<and>
   fst (getter attached counter
          (snd (setter attached counter (VArray [VUndefined]) (quiet fresh_store))))
     = VArray [VNull] \<and>
   VArray [VNull] \<noteq> VArray [VUndefined] \<and>
   isSerializable (VNumber (Finite 5)) \<and>
   table (sql (snd (setter attached counter (VNumber (Finite 5))
                      (quiet (fresh_store\<lparr>select_throws := True\<rparr>)))))
     = Some [''counter'' \<mapsto> JsonText (JNumber 5)] \<and>
   fst (getter attached counter
          (snd (setter attached counter (VNumber (Finite 5))
                  (quiet (fresh_store\<lparr>select_throws := True\<rparr>)))))
     = VNumber (Finite 0) \<and>
   VNumber (Finite 0) \<noteq> VNumber (Finite 5)"
  by (simp add: scenario_defs new_year_def setter_def getter_def load_def exec_insert_def
      exec_select_def Let_def as_array_def)

section \<open>The first read after an assignment\<close>

text \<open>
  Claim C10, amended. On an instance with a store, let a value be assigned to a field
  that has not been read, and the field be read at once. The read looks the key up and
  does not use the value in memory. When the value is serializable, the insertion
  succeeds and the lookup does not throw, the read returns what \<^verbatim>\<open>JSON.parse\<close> makes
  of the text the assignment has stored; for a value made of \<^verbatim>\<open>null\<close>, booleans, finite
  numbers, strings, arrays and plain objects that is the value itself. When the lookup
  throws or the table is missing the read returns the original value. When the assignment
  has stored nothing (the value is not serializable, the insertion throws, or
  \<^verbatim>\<open>JSON.stringify\<close> throws or gives \<^verbatim>\<open>undefined\<close>) the read returns what it would have
  returned without the assignment: the row stored before, or else the original value.
\<close>

theorem first_read_after_write:
  assumes "has_sql state" and "\<not> initialized f"
  shows
   "(isSerializable V \<and> JSON_stringify V = Inr (Some j) \<and> table (sql w) = Some t
       \<and> \<not> insert_throws (sql w) \<and> \<not> select_throws (sql w) \<longrightarrow>
       fst (write_then_read state f V w) = revive j) \<and>
    (json_value V \<and> table (sql w) = Some t
       \<and> \<not> insert_throws (sql w) \<and> \<not> select_throws (sql w) \<longrightarrow>
       fst (write_then_read state f V w) = V) \<and>
    (select_throws (sql w) \<or> table (sql w) = None \<longrightarrow>
       fst (write_then_read state f V w) = original f) \<and>
    (\<not> isSerializable V \<or> insert_throws (sql w) \<or> JSON_stringify V = Inr None
       \<or> JSON_stringify V = Inl e \<longrightarrow>
       fst (write_then_read state f V w) = fst (getter state f w))"
proof -
  have i: "\<not> initialized (fst (setter state f V w))"
    and k: "storageKey (fst (setter state f V w)) = storageKey f"
    using assms(2) by (simp_all add: setter_def Let_def split: sum.splits prod.splits)
  have wtr: "fst (write_then_read state f V w)
      = fst (getter state (fst (setter state f V w)) (snd (setter state f V w)))"
    by (simp add: write_then_read_def split: prod.splits)
  have 1: "fst (write_then_read state f V w) = revive j"
    if "isSerializable V" "JSON_stringify V = Inr (Some j)" "table (sql w) = Some t"
       "\<not> insert_throws (sql w)" "\<not> select_throws (sql w)" for j
  proof -
    note u = setter_upsert [OF that(1) that(2) assms(1) that(3) that(4), of f]
    have "fst (getter state (fst (setter state f V w)) (snd (setter state f V w))) = revive j"
      by (rule getter_row [OF assms(1) i, of _ "t(storageKey f \<mapsto> JsonText j)"])
         (use u that k in simp_all)
    then show ?thesis by (simp add: wtr)
  qed
  have 2: "fst (write_then_read state f V w) = V"
    if "json_value V" "table (sql w) = Some t" "\<not> insert_throws (sql w)"
       "\<not> select_throws (sql w)"
  proof -
    from json_roundtrip [OF that(1)] obtain j'
      where j: "JSON_stringify V = Inr (Some j')" "revive j' = V"
      by blast
    from 1 [OF json_value_isSerializable [OF that(1)] j(1) that(2) that(3) that(4)] j(2)
    show ?thesis by simp
  qed
  have 3: "fst (write_then_read state f V w) = original f"
    if "select_throws (sql w) \<or> table (sql w) = None"
    using that assms
    by (auto simp: write_then_read_def setter_def getter_def load_def exec_insert_def
          exec_select_def Let_def
        split: sum.splits option.splits prod.splits)
  have 4: "fst (write_then_read state f V w) = fst (getter state f w)"
    if "\<not> isSerializable V \<or> insert_throws (sql w) \<or> JSON_stringify V = Inr None
        \<or> JSON_stringify V = Inl e"
    using that assms
    by (auto simp: write_then_read_def setter_def getter_def load_def exec_insert_def
          exec_select_def Let_def
        split: sum.splits option.splits prod.splits)
  from 1 2 3 4 show ?thesis by blast
qed

theorem first_read_after_write_witness:
  "has_sql attached \<and> \<not> initialized counter \<and>
   fst (write_then_read attached counter (VNumber (Finite 5)) (quiet fresh_store))
     = VNumber (Finite 5) \<and>
   fst (write_then_read attached counter (VNumber (Finite 5)) (quiet broken_store))
     = VNumber (Finite 0) \<and>
   fst (write_then_read attached counter callback (quiet stored_five))
     = fst (getter attached counter (quiet stored_five))"
proof -
  have a: "has_sql attached" and b: "\<not> initialized counter"
    by (simp_all add: scenario_defs)
  have ok: "json_value (VNumber (Finite 5)) \<and> table (sql (quiet fresh_store)) = Some Map.empty
      \<and> \<not> insert_throws (sql (quiet fresh_store)) \<and> \<not> select_throws (sql (quiet fresh_store))"
    by (simp add: scenario_defs)
  have broken: "select_throws (sql (quiet broken_store))"
    by (simp add: scenario_defs)
  have n: "\<not> isSerializable callback"
    by (simp add: callback_def has_toJSON_def)
  from first_read_after_write [OF a b, of "VNumber (Finite 5)" _ "quiet fresh_store" Map.empty] ok
  have c1: "fst (write_then_read attached counter (VNumber (Finite 5)) (quiet fresh_store))
      = VNumber (Finite 5)"
    by blast
  from first_read_after_write [OF a b, of "VNumber (Finite 5)" _ "quiet broken_store"] broken
  have c2: "fst (write_then_read attached counter (VNumber (Finite 5)) (quiet broken_store))
      = original counter"
    by blast
  from first_read_after_write [OF a b, of callback _ "quiet stored_five"] n
  have c3: "fst (write_then_read attached counter callback (quiet stored_five))
      = fst (getter attached counter (quiet stored_five))"
    by blast
  have "original counter = VNumber (Finite 0)"
    by (simp add: counter_def)
  with a b c1 c2 c3 show ?thesis by simp
qed

text \<open>
  The claim as stated fails on two inputs. The date is serializable and its insertion
  succeeds, and the first read returns the ISO string, not the date. And after the
  insertion of 5 has succeeded, a lookup that throws makes the first read replace the 5
  in memory by the default 0, although the insertion did not fail and the value is
  serializable.
\<close>

theorem first_read_after_write_counterexample:
  "isSerializable new_year \<and> \<not> initialized counter \<and>
   table (sql (snd (setter attached counter new_year (quiet fresh_store))))
     = Some [''counter'' \<mapsto> JsonText (JString ''2024-01-01T00:00:00.000Z'')] \<and>
   fst (write_then_read attached counter new_year (quiet fresh_store))
     = VString ''2024-01-01T00:00:00.000Z'' \<and>
   VString ''2024-01-01T00:00:00.000Z'' \<noteq> new_year \<and>
   isSerializable (VNumber (Finite 5)) \<and>
   table (sql (snd (setter attached counter (VNumber (Finite 5))
                      (quiet (fresh_store\<lparr>select_throws := True\<rparr>)))))
     = Some [''counter'' \<mapsto> JsonText (JNumber 5)] \<and>
   fst (write_then_read attached counter (VNumber (Finite 5))
          (quiet (fresh_store\<lparr>select_throws := True\<rparr>)))
     = VNumber (Finite 0) \<and>
   VNumber (Finite 0) \<noteq> VNumber (Finite 5)"
  by (simp add: scenario_defs new_year_def write_then_read_def setter_def getter_def
      load_def exec_insert_def exec_select_def Let_def)

section \<open>Which names are wrapped\<close>

lemma setup_step_names:
  "set (map propertyName (setup_step opts this n acc))
     = set (map propertyName acc) \<union> (if dropped opts this n then {} else {n})"
  by (auto simp: setup_step_def dropped_def makePropertyPersistent_def split: option.splits)

lemma fold_setup_step_names:
  "set (map propertyName (fold (setup_step opts this) names acc))
     = set (map propertyName acc) \<union> {n \<in> set names. \<not> dropped opts this n}"
proof (induction names arbitrary: acc)
  case Nil
  show ?case by simp
next
  case (Cons n names)
  show ?case
    unfolding fold_simps Cons.IH setup_step_names by auto
qed

lemma wrapped_names_construct:
  "getSerializableProperties this = Inr names \<Longrightarrow>
   set (wrapped_names (construct opts (Some st) this w))
     = {n \<in> set names. \<not> dropped opts this n}"
  using fold_setup_step_names [of opts this names "[]"]
  by (simp add: wrapped_names_def construct_def setupPropertyPersistence_def Let_def)

lemma wrapped_names_subset:
  assumes "n \<in> set (wrapped_names (construct opts arg this w))"
  shows "\<exists>names. getSerializableProperties this = Inr names \<and> n \<in> set names
           \<and> \<not> dropped opts this n"
proof (cases arg)
  case None
  with assms show ?thesis
    by (simp add: wrapped_names_def construct_def)
next
  case (Some st)
  show ?thesis
  proof (cases "getSerializableProperties this")
    case (Inl e)
    with assms Some show ?thesis
      by (simp add: wrapped_names_def construct_def setupPropertyPersistence_def Let_def)
  next
    case (Inr names)
    with assms Some wrapped_names_construct [OF Inr, of opts st w] show ?thesis
      by simp
  qed
qed

lemma add_set: "set (add p acc) = insert p (set acc)"
  by (auto simp: add_def)

lemma own_step_set:
  "set (fold own_step ns acc)
     = set acc \<union> {n \<in> set ns. \<not> startsWith_underscore n \<and> n \<noteq> ''constructor''}"
  by (induction ns arbitrary: acc) (auto simp: own_step_def add_set)

lemma proto_step_set:
  "set (fold proto_step pvs acc) = set acc \<union>
     {n. \<exists>v. (n, v) \<in> set pvs \<and> \<not> startsWith_underscore n \<and> n \<noteq> ''constructor''
            \<and> typeof v \<noteq> TFunction}"
proof (induction pvs arbitrary: acc)
  case Nil
  show ?case by simp
next
  case (Cons pv pvs)
  show ?case
    unfolding fold_simps Cons.IH
    by (cases pv) (auto simp: proto_step_def add_set)
qed

lemma walk_names:
  "walk ps acc = Inr names \<Longrightarrow> n \<in> set names \<Longrightarrow>
   n \<in> set acc \<or> (\<not> startsWith_underscore n \<and> n \<noteq> ''constructor''
      \<and> (\<exists>p \<in> set ps. \<exists>v. (n, v) \<in> set (proto_props p) \<and> typeof v \<noteq> TFunction))"
proof (induction ps acc rule: walk.induct)
  case (1 properties)
  then show ?case by simp
next
  case (2 p rest properties)
  show ?case
  proof (cases "proto_constructor p = ObjectCtor")
    case True
    with 2 show ?thesis by simp
  next
    case False
    let ?acc = "fold proto_step (proto_props p) properties"
    have here: "m \<in> set ?acc \<Longrightarrow>
        m \<in> set properties \<or> (\<not> startsWith_underscore m \<and> m \<noteq> ''constructor''
        \<and> (\<exists>v. (m, v) \<in> set (proto_props p) \<and> typeof v \<noteq> TFunction))" for m
      by (auto simp: proto_step_set)
    show ?thesis
    proof (cases rest)
      case Nil
      with 2 False show ?thesis by (simp add: Let_def)
    next
      case (Cons q qs)
      show ?thesis
      proof (cases "proto_constructor q = DecoratedCtor")
        case True
        with 2 False Cons have "names = ?acc"
          by (simp add: Let_def)
        with here [of n] 2(3) show ?thesis by auto
      next
        case further: False
        with 2 False Cons have w: "walk rest ?acc = Inr names"
          by (simp add: Let_def)
        from "2.IH" [OF False refl Cons further _ "2.prems"(2)] w Cons
        have "n \<in> set ?acc \<or> (\<not> startsWith_underscore n \<and> n \<noteq> ''constructor''
            \<and> (\<exists>p \<in> set rest. \<exists>v. (n, v) \<in> set (proto_props p) \<and> typeof v \<noteq> TFunction))"
          by simp
        with here [of n] show ?thesis by auto
      qed
    qed
  qed
qed

lemma registry_names:
  assumes "getSerializableProperties this = Inr names" and "n \<in> set names"
  shows "\<not> startsWith_underscore n \<and> n \<noteq> ''constructor'' \<and>
     (n \<in> fst ` set (own this)
      \<or> (\<exists>p \<in> set (protos this). \<exists>v. (n, v) \<in> set (proto_props p) \<and> typeof v \<noteq> TFunction))"
  using walk_names [OF assms(1) [unfolded getSerializableProperties_def] assms(2)]
  by (auto simp: own_step_set)

lemma example_registry:
  "getSerializableProperties example_target = Inr [''counter'', ''tempCallback'']"
  by (simp add: getSerializableProperties_def example_target_def own_step_def proto_step_def
      add_def callback_def Let_def)

lemma example_lookup:
  "get_property example_target ''counter'' = VNumber (Finite 0)"
  "get_property example_target ''tempCallback'' = callback"
  by (simp_all add: get_property_def example_target_def)

text \<open>
  Claim C3, amended. When \<^verbatim>\<open>include\<close> is given, a name is wrapped exactly when the
  registry has discovered it, it is in \<^verbatim>\<open>include\<close>, it is not in \<^verbatim>\<open>exclude\<close>, and the
  value at that name is not callable. So a name absent from \<^verbatim>\<open>include\<close> is never
  wrapped, and a name in \<^verbatim>\<open>include\<close> that is also in \<^verbatim>\<open>exclude\<close> is not wrapped
  either.
\<close>

theorem include_list_filter:
  assumes "opt_include opts = Some inc" and "getSerializableProperties this = Inr names"
  shows "name \<in> set (wrapped_names (construct opts (Some st) this w)) \<longleftrightarrow>
         name \<in> set names \<and> name \<in> set inc
         \<and> name \<notin> set (case opt_exclude opts of None \<Rightarrow> [] | Some ex \<Rightarrow> ex)
         \<and> typeof (get_property this name) \<noteq> TFunction"
  using assms wrapped_names_construct [OF assms(2), of opts st w]
  by (auto simp: dropped_def)

theorem include_list_filter_witness:
  "opt_include only_counter = Some [''counter''] \<and>
   getSerializableProperties example_target = Inr [''counter'', ''tempCallback''] \<and>
   ''counter'' \<in> set (wrapped_names
      (construct only_counter (Some (DurableObjectState True)) example_target
         (quiet fresh_store)))"
proof -
  have i: "opt_include only_counter = Some [''counter'']"
    by (simp add: only_counter_def)
  from include_list_filter [OF i example_registry, of "''counter''" "DurableObjectState True"
      "quiet fresh_store"]
  have "''counter'' \<in> set (wrapped_names
      (construct only_counter (Some (DurableObjectState True)) example_target
         (quiet fresh_store)))"
    by (simp add: example_lookup only_counter_def)
  with i example_registry show ?thesis by simp
qed

text \<open>
  The claim as stated fails for a name that is in both lists: with \<^verbatim>\<open>counter\<close> in
  \<^verbatim>\<open>include\<close> and in \<^verbatim>\<open>exclude\<close>, the registry discovers \<^verbatim>\<open>counter\<close>, its value is
  not callable, and the constructor wraps nothing.
\<close>

theorem include_list_filter_counterexample:
  "opt_include counter_in_both = Some [''counter''] \<and>
   opt_exclude counter_in_both = Some [''counter''] \<and>
   getSerializableProperties example_target = Inr [''counter'', ''tempCallback''] \<and>
   typeof (get_property example_target ''counter'') \<noteq> TFunction \<and>
   wrapped_names (construct counter_in_both attached example_target (quiet fresh_store)) = []"
  by (simp add: example_registry example_lookup counter_in_both_def wrapped_names_def
      construct_def setupPropertyPersistence_def setup_step_def initializeStorage_def
      exec_create_def Let_def scenario_defs)

section \<open>Names that are never wrapped\<close>

lemma setup_step_list:
  "map propertyName (setup_step opts this n acc)
     = map propertyName acc @ (if dropped opts this n then [] else [n])"
  by (auto simp: setup_step_def dropped_def makePropertyPersistent_def split: option.splits)

lemma fold_setup_step_list:
  "map propertyName (fold (setup_step opts this) names acc)
     = map propertyName acc @ filter (\<lambda>n. \<not> dropped opts this n) names"
proof (induction names arbitrary: acc)
  case Nil
  show ?case by simp
next
  case (Cons n names)
  show ?case
    unfolding fold_simps Cons.IH setup_step_list by simp
qed

lemma wrapped_names_registry:
  assumes "registry_output opts this = Inr names"
  shows "wrapped_names (construct opts (Some st) this w) = names"
proof (cases "getSerializableProperties this")
  case (Inl e)
  with assms show ?thesis
    by (simp add: registry_output_def)
next
  case (Inr found)
  with assms have "names = filter (\<lambda>n. \<not> dropped opts this n) found"
    by (simp add: registry_output_def)
  with Inr fold_setup_step_list [of opts this found "[]"] show ?thesis
    by (simp add: wrapped_names_def construct_def setupPropertyPersistence_def Let_def)
qed

text \<open>
  Claim C8. Whatever the instance and the options, a name that begins with an underscore,
  the name \<^verbatim>\<open>constructor\<close>, and a name whose value (\<^verbatim>\<open>this[name]\<close> when the
  constructor runs) is callable are never wrapped, and are never in the output of the
  Registry. The output of the Registry is the list of the wrapped names, in its order. A
  name that begins with an underscore and the name \<^verbatim>\<open>constructor\<close> are not among the
  names that the discovery returns either.
\<close>

theorem never_wrapped:
  "(n \<in> set (wrapped_names (construct opts arg this w)) \<longrightarrow>
      \<not> startsWith_underscore n \<and> n \<noteq> ''constructor''
      \<and> typeof (get_property this n) \<noteq> TFunction) \<and>
   (registry_output opts this = Inr names \<and> n \<in> set names \<longrightarrow>
      \<not> startsWith_underscore n \<and> n \<noteq> ''constructor''
      \<and> typeof (get_property this n) \<noteq> TFunction) \<and>
   (registry_output opts this = Inr names \<longrightarrow>
      wrapped_names (construct opts (Some st) this w') = names) \<and>
   (getSerializableProperties this = Inr found \<and> n \<in> set found \<longrightarrow>
      \<not> startsWith_underscore n \<and> n \<noteq> ''constructor'')"
proof -
  have wrapped: "\<not> startsWith_underscore n \<and> n \<noteq> ''constructor''
      \<and> typeof (get_property this n) \<noteq> TFunction"
    if "n \<in> set (wrapped_names (construct opts arg this w))"
  proof -
    from wrapped_names_subset [OF that] obtain ns where
      ns: "getSerializableProperties this = Inr ns" "n \<in> set ns" "\<not> dropped opts this n"
      by blast
    from registry_names [OF ns(1) ns(2)] ns(3) show ?thesis
      by (simp add: dropped_def)
  qed
  have filtered: "\<not> startsWith_underscore n \<and> n \<noteq> ''constructor''
      \<and> typeof (get_property this n) \<noteq> TFunction"
    if "registry_output opts this = Inr names" "n \<in> set names"
  proof -
    from that(1) obtain ns where ns: "getSerializableProperties this = Inr ns"
      and names: "names = filter (\<lambda>m. \<not> dropped opts this m) ns"
      by (auto simp: registry_output_def split: sum.splits)
    from that(2) names have "n \<in> set ns" and "\<not> dropped opts this n"
      by simp_all
    with registry_names [OF ns] show ?thesis
      by (simp add: dropped_def)
  qed
  have same: "wrapped_names (construct opts (Some st) this w') = names"
    if "registry_output opts this = Inr names"
    using that by (rule wrapped_names_registry)
  have discovery: "\<not> startsWith_underscore n \<and> n \<noteq> ''constructor''"
    if "getSerializableProperties this = Inr found" "n \<in> set found"
    using registry_names [OF that] by simp
  from wrapped filtered same discovery show ?thesis
    by blast
qed

theorem never_wrapped_witness:
  "registry_output no_options example_target = Inr [''counter''] \<and>
   wrapped_names (construct no_options attached example_target (quiet fresh_store))
     = [''counter''] \<and>
   \<not> startsWith_underscore ''counter'' \<and>
   typeof (get_property example_target ''counter'') \<noteq> TFunction \<and>
   typeof (get_property example_target ''tempCallback'') = TFunction \<and>
   ''tempCallback'' \<notin> set [''counter''] \<and>
   startsWith_underscore ''_internalState'' \<and>
   ''_internalState'' \<notin> set [''counter'']"
proof -
  have r: "registry_output no_options example_target = Inr [''counter'']"
    by (simp add: registry_output_def example_registry dropped_def example_lookup
        no_options_def callback_def)
  have m: "registry_output no_options example_target = Inr [''counter'']
      \<and> ''counter'' \<in> set [''counter'']"
    using r by simp
  note t = never_wrapped [of "''counter''" no_options attached example_target
      "quiet fresh_store" "[''counter'']" "DurableObjectState True" "quiet fresh_store"]
  from t m have a: "\<not> startsWith_underscore ''counter''
      \<and> typeof (get_property example_target ''counter'') \<noteq> TFunction"
    by blast
  from t r have "wrapped_names
      (construct no_options (Some (DurableObjectState True)) example_target (quiet fresh_store))
      = [''counter'']"
    by blast
  then have w: "wrapped_names (construct no_options attached example_target (quiet fresh_store))
      = [''counter'']"
    by (simp add: attached_def)
  have c: "typeof (get_property example_target ''tempCallback'') = TFunction"
    by (simp add: example_lookup callback_def)
  from r w a c show ?thesis by simp
qed

section \<open>A schema initialization that fails\<close>

lemma example_construct_broken:
  "construct no_options attached example_target (quiet broken_store)
     = (Inr \<lparr>durableObjectState = attached, this_target = example_target,
             accessors = [counter]\<rparr>,
        \<lparr>sql = broken_store\<lparr>journal := [CreateTable]\<rparr>, console = [init_error SqlError]\<rparr>)"
  by (simp add: example_registry example_lookup no_options_def construct_def
      setupPropertyPersistence_def setup_step_def initializeStorage_def exec_create_def
      makePropertyPersistent_def Let_def scenario_defs)

text \<open>
  Claim C7, amended. When the \<^verbatim>\<open>CREATE TABLE\<close> of the constructor throws, the failure
  is written to the console as an error, no row changes, and the constructor goes on as
  it does when the statement succeeds: it returns the same instance, with the same fields
  wrapped. Persistence is not switched off: whatever the world is afterwards, the first
  read of a field issues its \<^verbatim>\<open>SELECT\<close> and the assignment of a serializable value
  issues its \<^verbatim>\<open>INSERT OR REPLACE\<close>. When these statements fail as well, the first read
  returns the original value and the assignment keeps the value in memory and changes no
  row.
\<close>

theorem failed_schema_initialization:
  assumes "has_sql (Some st)" and "create_throws (sql w)"
  shows
   "console (snd (construct opts (Some st) this w)) = console w @ [init_error SqlError] \<and>
    table (sql (snd (construct opts (Some st) this w))) = table (sql w) \<and>
    journal (sql (snd (construct opts (Some st) this w))) = journal (sql w) @ [CreateTable] \<and>
    fst (construct opts (Some st) this w)
      = fst (construct opts (Some st) this (w\<lparr>sql := (sql w)\<lparr>create_throws := False\<rparr>\<rparr>)) \<and>
    (\<not> initialized f \<longrightarrow>
       journal (sql (snd (snd (getter (Some st) f w'))))
         = journal (sql w') @ [Select (storageKey f)]) \<and>
    (isSerializable V \<and> JSON_stringify V = Inr b \<longrightarrow>
       journal (sql (snd (setter (Some st) f V w')))
         = journal (sql w') @ [InsertOrReplace (storageKey f) (map_option JsonText b)]) \<and>
    (\<not> initialized f \<and> (select_throws (sql w') \<or> table (sql w') = None) \<longrightarrow>
       fst (getter (Some st) f w') = original f) \<and>
    (insert_throws (sql w') \<or> table (sql w') = None \<longrightarrow>
       table (sql (snd (setter (Some st) f V w'))) = table (sql w')
       \<and> cachedValue (fst (setter (Some st) f V w')) = V)"
proof -
  have c: "console (snd (construct opts (Some st) this w)) = console w @ [init_error SqlError]
      \<and> table (sql (snd (construct opts (Some st) this w))) = table (sql w)
      \<and> journal (sql (snd (construct opts (Some st) this w))) = journal (sql w) @ [CreateTable]"
    using assms
    by (simp add: construct_def initializeStorage_def exec_create_def Let_def
        split: sum.splits)
  have s: "fst (construct opts (Some st) this w)
      = fst (construct opts (Some st) this (w\<lparr>sql := (sql w)\<lparr>create_throws := False\<rparr>\<rparr>))"
    by (simp add: construct_def Let_def split: sum.splits)
  have r: "journal (sql (snd (snd (getter (Some st) f w'))))
      = journal (sql w') @ [Select (storageKey f)]" if "\<not> initialized f"
    using that assms(1)
    by (simp add: getter_def load_def exec_select_def Let_def
        split: option.splits sum.splits)
  have u: "journal (sql (snd (setter (Some st) f V w')))
      = journal (sql w') @ [InsertOrReplace (storageKey f) (map_option JsonText b)]"
    if "isSerializable V" "JSON_stringify V = Inr b"
    using that assms(1)
    by (simp add: setter_def exec_insert_def Let_def split: option.splits)
  have d: "fst (getter (Some st) f w') = original f"
    if "\<not> initialized f" "select_throws (sql w') \<or> table (sql w') = None"
    using that assms(1)
    by (auto simp: getter_def load_def exec_select_def Let_def)
  have m: "table (sql (snd (setter (Some st) f V w'))) = table (sql w')
      \<and> cachedValue (fst (setter (Some st) f V w')) = V"
    if "insert_throws (sql w') \<or> table (sql w') = None"
    using that
    by (auto simp: setter_def exec_insert_def Let_def split: sum.splits)
  from c s r u d m show ?thesis by blast
qed

theorem failed_schema_initialization_witness:
  "has_sql attached \<and> create_throws (sql (quiet broken_store)) \<and>
   console (snd (construct no_options attached example_target (quiet broken_store)))
     = [init_error SqlError] \<and>
   journal (sql (snd (snd (getter attached counter (quiet fresh_store)))))
     = [Select ''counter''] \<and>
   journal (sql (snd (setter attached counter (VNumber (Finite 5)) (quiet fresh_store))))
     = [InsertOrReplace ''counter'' (Some (JsonText (JNumber 5)))] \<and>
   fst (getter attached counter (quiet broken_store)) = VNumber (Finite 0) \<and>
   cachedValue (fst (setter attached counter (VNumber (Finite 5)) (quiet broken_store)))
     = VNumber (Finite 5)"
proof -
  have a: "has_sql (Some (DurableObjectState True))"
    and b: "create_throws (sql (quiet broken_store))"
    by (simp_all add: scenario_defs)
  have st: "attached = Some (DurableObjectState True)"
    by (simp add: attached_def)
  have n: "\<not> initialized counter"
    by (simp add: counter_def)
  have v: "isSerializable (VNumber (Finite 5))
      \<and> JSON_stringify (VNumber (Finite 5)) = Inr (Some (JNumber 5))"
    by simp
  have k: "select_throws (sql (quiet broken_store))" "insert_throws (sql (quiet broken_store))"
    by (simp_all add: scenario_defs)
  note t1 = failed_schema_initialization [OF a b, of no_options example_target counter
      "quiet fresh_store" "VNumber (Finite 5)" "Some (JNumber 5)"]
  note t2 = failed_schema_initialization [OF a b, of no_options example_target counter
      "quiet broken_store" "VNumber (Finite 5)" "Some (JNumber 5)"]
  from t1 n v have c1:
    "console (snd (construct no_options (Some (DurableObjectState True)) example_target
        (quiet broken_store))) = console (quiet broken_store) @ [init_error SqlError]
     \<and> journal (sql (snd (snd (getter (Some (DurableObjectState True)) counter
        (quiet fresh_store))))) = journal (sql (quiet fresh_store)) @ [Select (storageKey counter)]
     \<and> journal (sql (snd (setter (Some (DurableObjectState True)) counter (VNumber (Finite 5))
        (quiet fresh_store))))
       = journal (sql (quiet fresh_store))
         @ [InsertOrReplace (storageKey counter) (map_option JsonText (Some (JNumber 5)))]"
    by blast
  from t2 n k have c2:
    "fst (getter (Some (DurableObjectState True)) counter (quiet broken_store))
       = original counter
     \<and> cachedValue (fst (setter (Some (DurableObjectState True)) counter (VNumber (Finite 5))
        (quiet broken_store))) = VNumber (Finite 5)"
    by blast
  have e: "console (quiet s) = []" "journal (sql (quiet fresh_store)) = []"
    "storageKey counter = ''counter''" "original counter = VNumber (Finite 0)" for s
    by (simp_all add: scenario_defs)
  from a b c1 c2 show ?thesis
    by (simp add: st e)
qed

text \<open>
  The claim as stated fails on the example class against a store on which every
  statement throws: the constructor logs the failure and wraps the counter all the same,
  and the first read of the counter and an assignment to it each issue a statement.
\<close>

theorem failed_schema_initialization_counterexample:
  "create_throws (sql (quiet broken_store)) \<and>
   construct no_options attached example_target (quiet broken_store)
     = (Inr \<lparr>durableObjectState = attached, this_target = example_target,
             accessors = [counter]\<rparr>,
        \<lparr>sql = broken_store\<lparr>journal := [CreateTable]\<rparr>, console = [init_error SqlError]\<rparr>) \<and>
   journal (sql (snd (snd (getter attached counter
      \<lparr>sql = broken_store\<lparr>journal := [CreateTable]\<rparr>, console = [init_error SqlError]\<rparr>))))
     = [CreateTable, Select ''counter''] \<and>
   journal (sql (snd (setter attached counter (VNumber (Finite 5))
      \<lparr>sql = broken_store\<lparr>journal := [CreateTable]\<rparr>, console = [init_error SqlError]\<rparr>)))
     = [CreateTable, InsertOrReplace ''counter'' (Some (JsonText (JNumber 5)))]"
  by (simp add: example_construct_broken)
     (simp add: scenario_defs getter_def setter_def load_def exec_select_def exec_insert_def
        Let_def)

section \<open>What the validator accepts\<close>
















end
